theory Spec2Isabelle
  imports Complex_Main "HOL-Library.Word" "HOL-Library.Log_Nat"
begin

section \<open>Strings and the text comparator\<close>

text \<open>
  A JavaScript string is a sequence of UTF-16 code units; \<^verbatim>\<open>length\<close>, \<^verbatim>\<open>split("")\<close> and
  indexing all count code units. Reading past the end yields \<^verbatim>\<open>undefined\<close>, which is modelled
  by \<open>None\<close>.
\<close>

type_synonym jsstring = "16 word list"

definition charAt :: "jsstring \<Rightarrow> nat \<Rightarrow> 16 word option" where
  "charAt s i = (if i < length s then Some (s ! i) else None)"

text \<open>
  \<^verbatim>\<open>userInput.split("").filter((char, index) => char === text[index]).length\<close>
  (typing-game.tsx, lines 77-81): the callback of \<^verbatim>\<open>filter\<close> receives each element with its index;
  a code unit is never strictly equal to \<^verbatim>\<open>undefined\<close>.
\<close>

definition getCorrectChars :: "jsstring \<Rightarrow> jsstring \<Rightarrow> nat" where
  "getCorrectChars userInput txt =
     length (filter (\<lambda>(char, index). Some char = charAt txt index)
               (zip userInput [0 ..< length userInput]))"

definition utf16 :: "string \<Rightarrow> jsstring" where
  "utf16 cs = map (\<lambda>c. of_nat (of_char c)) cs"

section \<open>JavaScript numbers\<close>

text \<open>
  A JavaScript number is an IEEE 754 double. Every finite double is a rational number, and the
  result of a division or multiplication is the exact result rounded to the nearest double, a
  tie going to the even significand. \<open>fl\<close> is that rounding for a significand of 53 bits; the
  exponent range is not bounded, so overflow and subnormal numbers are not modelled (the
  quantities of the program, character counts, durations in milliseconds and words per minute,
  are far from both). \<open>expo x\<close> is the exponent of \<open>x\<close>: the \<open>e\<close> with
  \<open>2 powi e \<le> \<bar>x\<bar> < 2 powi (e + 1)\<close>. \<^verbatim>\<open>Math.round\<close> rounds to the nearest integer, a tie
  going up; \<^verbatim>\<open>Math.floor\<close> is \<open>floor\<close>. Both are exact.
\<close>

definition expo :: "rat \<Rightarrow> int" where
  "expo x = (let (a, b) = quotient_of \<bar>x\<bar>; e = bitlen a - bitlen b
             in if 2 powi e \<le> \<bar>x\<bar> then e else e - 1)"

definition ties_even :: "rat \<Rightarrow> int" where
  "ties_even q = (let f = \<lfloor>q\<rfloor>; r = q - of_int f
                  in if r < 1 / 2 then f else if 1 / 2 < r then f + 1
                     else if even f then f else f + 1)"

definition fl :: "rat \<Rightarrow> rat" where
  "fl x = (if x = 0 then 0
           else let u = 2 powi (expo x - 52) in of_int (ties_even (x / u)) * u)"

definition fdiv :: "rat \<Rightarrow> rat \<Rightarrow> rat" where
  "fdiv a b = fl (a / b)"

definition fmul :: "rat \<Rightarrow> rat \<Rightarrow> rat" where
  "fmul a b = fl (a * b)"

definition jsround :: "rat \<Rightarrow> int" where
  "jsround x = \<lfloor>x + 1 / 2\<rfloor>"

text \<open>
  A value of type \<^verbatim>\<open>number | null\<close>: \<^verbatim>\<open>null\<close> and \<open>0\<close> are falsy, and \<^verbatim>\<open>null\<close> is \<open>0\<close> in
  arithmetic. Time stamps (\<^verbatim>\<open>Date.now()\<close>) are integers, in milliseconds, of magnitude below
  \<open>2 ^ 53\<close>, on which subtraction is exact.
\<close>

definition truthy :: "int option \<Rightarrow> bool" where
  "truthy t = (case t of None \<Rightarrow> False | Some v \<Rightarrow> v \<noteq> 0)"

definition numberOf :: "int option \<Rightarrow> int" where
  "numberOf t = (case t of None \<Rightarrow> 0 | Some v \<Rightarrow> v)"

section \<open>The WPM history\<close>

text \<open>
  An entry \<^verbatim>\<open>{ time, wpm }\<close> of the history is the pair \<open>(time, wpm)\<close>. The updater passed to
  \<^verbatim>\<open>setWpmHistory\<close> (lines 301-311) reads \<^verbatim>\<open>prev[prev.length - 1]\<close>, which is
  \<^verbatim>\<open>undefined\<close> on the empty array, and returns a fresh array.
\<close>

type_synonym sample = "int \<times> int"

definition lastEntry :: "sample list \<Rightarrow> sample option" where
  "lastEntry prev = (if prev = [] then None else Some (last prev))"

definition recordSample :: "sample list \<Rightarrow> int \<Rightarrow> int \<Rightarrow> sample list" where
  "recordSample prev timeSeconds wpm =
     (case lastEntry prev of
        Some e \<Rightarrow>
          if fst e = timeSeconds then butlast prev @ [(timeSeconds, wpm)]
          else prev @ [(timeSeconds, wpm)]
      | None \<Rightarrow> prev @ [(timeSeconds, wpm)])"

section \<open>The state of a game and its metrics\<close>

text \<open>The interface \<^verbatim>\<open>GameState\<close> (lines 14-23) and the result of \<^verbatim>\<open>calculateResults\<close>.\<close>

record GameState =
  text' :: jsstring
  userInput :: jsstring
  startTime :: "int option"
  timer :: int
  isGameActive :: bool
  isGameFinished :: bool
  finalWPM :: int
  finalAccuracy :: int

record GameResult =
  r_wpm :: int
  r_accuracy :: int
  r_duration :: int
  r_wpmHistory :: "sample list"

text \<open>
  The computation of \<^verbatim>\<open>calculateWPM\<close> (lines 291-313): the second of the sample and the words
  per minute, or nothing when the elapsed time is not positive. \<^verbatim>\<open>state.startTime!\<close> is read
  as a number.
\<close>

definition calculateWPM :: "int \<Rightarrow> GameState \<Rightarrow> (int \<times> int) option" where
  "calculateWPM now s =
     (let elapsedSeconds = fdiv (of_int (now - numberOf (startTime s))) 1000;
          elapsedMinutes = fdiv elapsedSeconds 60
      in if 0 < elapsedMinutes then
           let correctChars = getCorrectChars (userInput s) (text' s);
               wpm = min (jsround (fdiv (fdiv (of_nat correctChars) 5) elapsedMinutes)) 999;
               timeSeconds = \<lfloor>elapsedSeconds\<rfloor>
           in Some (timeSeconds, wpm)
         else None)"

text \<open>
  \<^verbatim>\<open>calculateResults\<close>: the finish effects each declare it, with the same text (lines 327-336
  and 373-382). \<open>endTime\<close> is \<^verbatim>\<open>Date.now()\<close>; \<open>hist\<close> is the \<^verbatim>\<open>wpmHistory\<close> of the render.
\<close>

definition calculateResults :: "int \<Rightarrow> GameState \<Rightarrow> sample list \<Rightarrow> GameResult" where
  "calculateResults endTime s hist =
     (let start = (if truthy (startTime s) then numberOf (startTime s) else endTime);
          duration = \<lfloor>fdiv (of_int (endTime - start)) 1000\<rfloor>;
          typedChars = length (userInput s);
          correctChars = getCorrectChars (userInput s) (text' s);
          accuracy = (if 0 < typedChars
                      then jsround (fmul (fdiv (of_nat correctChars) (of_nat typedChars)) 100)
                      else 0);
          wpm = (if 0 < duration
                 then min (jsround (fdiv (fdiv (of_nat correctChars) 5)
                                      (fdiv (of_int duration) 60))) 999
                 else 0)
      in \<lparr>r_wpm = wpm, r_accuracy = accuracy, r_duration = duration, r_wpmHistory = hist\<rparr>)"

section \<open>The ghost cursor\<close>





section \<open>Saving a result\<close>

text \<open>
  \<^verbatim>\<open>saveGameResult\<close> (share.ts, lines 11-54). The session and the table are collaborators that
  are not part of the function: \<open>userId\<close> is \<^verbatim>\<open>session?.user?.id\<close>, \<open>insertRow\<close> is the insert of a
  row, giving the identifier of the new row or \<open>None\<close> when it throws, and \<open>db\<close> is the rows of
  the table. Whatever is thrown inside is caught, logged and replaced by one error.
\<close>

record SaveData =
  d_wpm :: int
  d_accuracy :: int
  d_duration :: int
  d_textExcerpt :: jsstring
  d_wpmHistory :: "sample list option"

record Row =
  row_userId :: string
  row_data :: SaveData

record SaveOutcome =
  success :: bool
  gameResultId :: "string option"

datatype cause = InvalidAccuracy | InvalidWPM | InvalidDuration | InsertFailed

datatype saveError = FailedToSave cause

definition saveGameResult ::
    "string option \<Rightarrow> (Row \<Rightarrow> string option) \<Rightarrow> SaveData \<Rightarrow> Row list
       \<Rightarrow> (saveError + SaveOutcome) \<times> Row list" where
  "saveGameResult userId insertRow data db =
     (if d_accuracy data < 0 \<or> 100 < d_accuracy data then (Inl (FailedToSave InvalidAccuracy), db)
      else if d_wpm data < 0 \<or> 350 < d_wpm data then (Inl (FailedToSave InvalidWPM), db)
      else if d_duration data < 0 \<or> 300 < d_duration data
        then (Inl (FailedToSave InvalidDuration), db)
      else
        case userId of
          None \<Rightarrow> (Inr \<lparr>success = False, gameResultId = None\<rparr>, db)
        | Some uid \<Rightarrow>
            if uid = [] then (Inr \<lparr>success = False, gameResultId = None\<rparr>, db)
            else
              let row = \<lparr>row_userId = uid, row_data = data\<rparr>
              in case insertRow row of
                   None \<Rightarrow> (Inl (FailedToSave InsertFailed), db)
                 | Some rid \<Rightarrow> (Inr \<lparr>success = True, gameResultId = Some rid\<rparr>, db @ [row]))"

text \<open>The ranges that \<^verbatim>\<open>saveGameResult\<close> accepts.\<close>

definition validData :: "SaveData \<Rightarrow> bool" where
  "validData data =
     (0 \<le> d_wpm data \<and> d_wpm data \<le> 350 \<and> 0 \<le> d_accuracy data \<and> d_accuracy data \<le> 100
      \<and> 0 \<le> d_duration data \<and> d_duration data \<le> 300)"

section \<open>The component\<close>

text \<open>
  The state of \<^verbatim>\<open>TypingGame\<close>: its \<^verbatim>\<open>useState\<close> variables, and what the program keeps
  outside React. \<open>pending\<close> is the queue of the callbacks that the finish effects have passed to
  \<^verbatim>\<open>setTimeout(.., 0)\<close> and that have not run yet, each with the \<^verbatim>\<open>results\<close> and the
  \<^verbatim>\<open>state.text\<close> of its closure; \<open>submitted\<close> lists the arguments of the calls of
  \<^verbatim>\<open>saveGameResult\<close> made so far, and \<open>rows\<close> is the table. Every update of \<^verbatim>\<open>wpmHistory\<close>
  stores a new array, and the finish effects depend on the array: \<open>historyUnseen\<close> holds while
  \<^verbatim>\<open>wpmHistory\<close> is an array that no render has shown to the effects yet.
\<close>

datatype timerChoice = Fifteen | Thirty

definition seconds :: "timerChoice \<Rightarrow> int" where
  "seconds c = (case c of Fifteen \<Rightarrow> 15 | Thirty \<Rightarrow> 30)"

record World =
  state :: GameState
  currentWPM :: int
  wpmHistory :: "sample list"
  historyUnseen :: bool
  savedGameResultId :: "string option"
  timerPreference :: timerChoice
  pending :: "(GameResult \<times> jsstring) list"
  submitted :: "SaveData list"
  rows :: "Row list"

definition fallbackText :: jsstring where
  "fallbackText = utf16 ''The quick brown fox jumps over the lazy dog.''"

text \<open>The component once mounted (lines 37-46 and 53-65): nothing is loaded yet.\<close>

definition initialState :: GameState where
  "initialState =
     \<lparr>text' = [], userInput = [], startTime = None, timer = 30, isGameActive = False,
      isGameFinished = False, finalWPM = 0, finalAccuracy = 0\<rparr>"

definition initial :: World where
  "initial =
     \<lparr>state = initialState, currentWPM = 0, wpmHistory = [], historyUnseen = False,
      savedGameResultId = None, timerPreference = Thirty, pending = [], submitted = [],
      rows = []\<rparr>"

subsection \<open>Handlers\<close>

text \<open>The updater of \<^verbatim>\<open>handleInput\<close> (lines 245-271); \<open>now\<close> is \<^verbatim>\<open>Date.now()\<close>.\<close>

definition handleInput :: "jsstring \<Rightarrow> int \<Rightarrow> GameState \<Rightarrow> GameState" where
  "handleInput value now prev =
     (let isFirstChar = (userInput prev = [] \<and> value \<noteq> [])
      in if isFirstChar \<and> \<not> isGameActive prev
         then prev\<lparr>isGameActive := True, startTime := Some now, userInput := value\<rparr>
         else prev\<lparr>userInput := value\<rparr>)"

text \<open>
  The countdown (lines 273-286): the effect depends on \<^verbatim>\<open>isGameActive\<close> and \<^verbatim>\<open>timer\<close>, so
  an interval exists exactly while the game is active with a positive timer, and its callback
  takes one second off.
\<close>

definition countdownArmed :: "GameState \<Rightarrow> bool" where
  "countdownArmed s = (isGameActive s \<and> 0 < timer s)"

definition countdownTick :: "GameState \<Rightarrow> GameState" where
  "countdownTick prev = prev\<lparr>timer := timer prev - 1\<rparr>"

text \<open>
  The sampling effect (lines 289-323) depends on \<^verbatim>\<open>isGameActive\<close>, \<^verbatim>\<open>startTime\<close>,
  \<^verbatim>\<open>userInput\<close> and \<^verbatim>\<open>text\<close>. While the game is active with a start time it keeps an interval
  of 100 ms that runs \<^verbatim>\<open>calculateWPM\<close>, which it also runs at once; while the game is not active
  it empties the history.
\<close>

definition samplerArmed :: "GameState \<Rightarrow> bool" where
  "samplerArmed s = (isGameActive s \<and> truthy (startTime s))"

definition runCalculateWPM :: "int \<Rightarrow> World \<Rightarrow> World" where
  "runCalculateWPM now w =
     (case calculateWPM now (state w) of
        Some (timeSeconds, wpm) \<Rightarrow>
          w\<lparr>currentWPM := wpm, wpmHistory := recordSample (wpmHistory w) timeSeconds wpm,
            historyUnseen := True\<rparr>
      | None \<Rightarrow> w)"

definition samplerEffect :: "int \<Rightarrow> World \<Rightarrow> World" where
  "samplerEffect now w =
     (if samplerArmed (state w) then runCalculateWPM now w
      else if \<not> isGameActive (state w) then w\<lparr>wpmHistory := [], historyUnseen := True\<rparr>
      else w)"

text \<open>
  The two finish effects (lines 325-368 and 370-413). When its condition holds, an effect
  computes the results and passes a callback to \<^verbatim>\<open>setTimeout\<close>; the callback is modelled by
  the pair of what it has captured.
\<close>

definition timerFinishEffect ::
    "int \<Rightarrow> GameState \<Rightarrow> sample list \<Rightarrow> (GameResult \<times> jsstring) list" where
  "timerFinishEffect now s hist =
     (if timer s = 0 \<and> isGameActive s \<and> \<not> isGameFinished s
      then [(calculateResults now s hist, text' s)] else [])"

definition completionFinishEffect ::
    "int \<Rightarrow> GameState \<Rightarrow> sample list \<Rightarrow> (GameResult \<times> jsstring) list" where
  "completionFinishEffect now s hist =
     (if length (userInput s) = length (text' s) \<and> isGameActive s \<and> \<not> isGameFinished s
      then [(calculateResults now s hist, text' s)] else [])"

text \<open>
  The callback of a finish effect (lines 340-366 and 385-411): it marks the game finished,
  then calls \<^verbatim>\<open>saveGameResult\<close>; a failure of the call is caught and logged.
\<close>

definition toSaveData :: "GameResult \<Rightarrow> jsstring \<Rightarrow> SaveData" where
  "toSaveData results txt =
     \<lparr>d_wpm = r_wpm results, d_accuracy = r_accuracy results, d_duration = r_duration results,
      d_textExcerpt = txt,
      d_wpmHistory = (if 0 < length (r_wpmHistory results) then Some (r_wpmHistory results)
                      else None)\<rparr>"

definition finishCallback ::
    "string option \<Rightarrow> (Row \<Rightarrow> string option) \<Rightarrow> GameResult \<times> jsstring \<Rightarrow> World \<Rightarrow> World" where
  "finishCallback userId insertRow cb w =
     (let results = fst cb;
          data = toSaveData results (snd cb);
          saved = saveGameResult userId insertRow data (rows w)
      in w\<lparr>state := (state w)\<lparr>isGameFinished := True, finalWPM := r_wpm results,
                                finalAccuracy := r_accuracy results\<rparr>,
           submitted := submitted w @ [data],
           rows := snd saved,
           savedGameResultId :=
             (case fst saved of
                Inr result \<Rightarrow>
                  if success result \<and> gameResultId result \<noteq> None \<and> gameResultId result \<noteq> Some []
                  then gameResultId result else savedGameResultId w
              | Inl e \<Rightarrow> savedGameResultId w)\<rparr>)"

text \<open>\<^verbatim>\<open>handleRestart\<close> (lines 415-453) once the new text has arrived, and its \<^verbatim>\<open>catch\<close> branch.\<close>

definition freshState :: "jsstring \<Rightarrow> timerChoice \<Rightarrow> GameState" where
  "freshState newText c =
     \<lparr>text' = newText, userInput = [], startTime = None, timer = seconds c,
      isGameActive = False, isGameFinished = False, finalWPM = 0, finalAccuracy = 0\<rparr>"

definition handleRestart :: "jsstring \<Rightarrow> World \<Rightarrow> World" where
  "handleRestart newText w =
     w\<lparr>state := freshState newText (timerPreference w), currentWPM := 0, wpmHistory := [],
       historyUnseen := True, savedGameResultId := None\<rparr>"

definition handleRestartFailed :: "World \<Rightarrow> World" where
  "handleRestartFailed w = w\<lparr>state := freshState fallbackText (timerPreference w)\<rparr>"

text \<open>\<^verbatim>\<open>handleTimerToggle\<close> (lines 495-515); the buttons call it only while no game is active.\<close>

definition handleTimerToggle :: "World \<Rightarrow> World" where
  "handleTimerToggle w =
     (let newDuration = (if timerPreference w = Thirty then Fifteen else Thirty)
      in w\<lparr>timerPreference := newDuration,
           state := (if \<not> isGameActive (state w) then (state w)\<lparr>timer := seconds newDuration\<rparr>
                     else state w)\<rparr>)"

subsection \<open>Events\<close>

text \<open>
  What the event loop runs, one at a time and to completion; the last argument of an event is
  \<^verbatim>\<open>Date.now()\<close> while it runs. \<open>Loaded\<close> and \<open>LoadFailed\<close> are the two ends of
  \<^verbatim>\<open>initializeGame\<close> (lines 84-118), \<open>LoadFailed\<close> with the preference when it had arrived.
  \<open>Rerender\<close> is a render that no handler has asked for: the one React schedules after an effect
  has updated the state. The input element is also disabled while a text is loading; the
  loading flag is not modelled, so the model admits every sequence of events of the page, and
  more.
\<close>

datatype event =
    Loaded jsstring timerChoice int
  | LoadFailed "timerChoice option" int
  | Input jsstring int
  | CountdownTick int
  | SampleTick int
  | FinishTimeout int
  | Restart jsstring int
  | RestartFailed int
  | TimerToggle int
  | Rerender int

fun eventTime :: "event \<Rightarrow> int" where
  "eventTime (Loaded txt c now) = now"
| "eventTime (LoadFailed c now) = now"
| "eventTime (Input value now) = now"
| "eventTime (CountdownTick now) = now"
| "eventTime (SampleTick now) = now"
| "eventTime (FinishTimeout now) = now"
| "eventTime (Restart txt now) = now"
| "eventTime (RestartFailed now) = now"
| "eventTime (TimerToggle now) = now"
| "eventTime (Rerender now) = now"

text \<open>
  The handler of an event. The input element is disabled once the game is finished; a tick of
  an interval that does not exist, or a timeout that nobody has set, does nothing.
\<close>

fun handler :: "string option \<Rightarrow> (Row \<Rightarrow> string option) \<Rightarrow> event \<Rightarrow> World \<Rightarrow> World" where
  "handler u ins (Loaded txt c now) w =
     w\<lparr>timerPreference := c, state := (state w)\<lparr>text' := txt, timer := seconds c\<rparr>\<rparr>"
| "handler u ins (LoadFailed c now) w =
     w\<lparr>timerPreference := (case c of Some d \<Rightarrow> d | None \<Rightarrow> timerPreference w),
       state := (state w)\<lparr>text' := fallbackText, timer := 30\<rparr>\<rparr>"
| "handler u ins (Input value now) w =
     (if isGameFinished (state w) then w else w\<lparr>state := handleInput value now (state w)\<rparr>)"
| "handler u ins (CountdownTick now) w =
     (if countdownArmed (state w) then w\<lparr>state := countdownTick (state w)\<rparr> else w)"
| "handler u ins (SampleTick now) w =
     (if samplerArmed (state w) then runCalculateWPM now w else w)"
| "handler u ins (FinishTimeout now) w =
     (case pending w of
        [] \<Rightarrow> w
      | cb # rest \<Rightarrow> finishCallback u ins cb (w\<lparr>pending := rest\<rparr>))"
| "handler u ins (Restart txt now) w = handleRestart txt w"
| "handler u ins (RestartFailed now) w = handleRestartFailed w"
| "handler u ins (TimerToggle now) w = handleTimerToggle w"
| "handler u ins (Rerender now) w = w"

text \<open>
  The render that follows a handler, with its effects. \<open>prev\<close> is the state of the render
  before. An effect runs when one of its dependencies has changed; the finish effects read the
  history of this render, and an update made by the sampling effect is for the next render.
\<close>

definition samplerDeps :: "GameState \<Rightarrow> bool \<times> int option \<times> jsstring \<times> jsstring" where
  "samplerDeps s = (isGameActive s, startTime s, userInput s, text' s)"

definition timerFinishDeps ::
    "GameState \<Rightarrow> int \<times> bool \<times> bool \<times> jsstring \<times> jsstring \<times> int option" where
  "timerFinishDeps s =
     (timer s, isGameActive s, isGameFinished s, userInput s, text' s, startTime s)"

definition completionFinishDeps ::
    "GameState \<Rightarrow> jsstring \<times> jsstring \<times> bool \<times> bool \<times> int option" where
  "completionFinishDeps s =
     (userInput s, text' s, isGameActive s, isGameFinished s, startTime s)"

definition render :: "int \<Rightarrow> GameState \<Rightarrow> World \<Rightarrow> World" where
  "render now prev w =
     (let s = state w;
          hist = wpmHistory w;
          a = (if timerFinishDeps s \<noteq> timerFinishDeps prev \<or> historyUnseen w
               then timerFinishEffect now s hist else []);
          b = (if completionFinishDeps s \<noteq> completionFinishDeps prev \<or> historyUnseen w
               then completionFinishEffect now s hist else []);
          w0 = w\<lparr>historyUnseen := False\<rparr>;
          w1 = (if samplerDeps s \<noteq> samplerDeps prev then samplerEffect now w0 else w0)
      in w1\<lparr>pending := pending w @ a @ b\<rparr>)"

definition step :: "string option \<Rightarrow> (Row \<Rightarrow> string option) \<Rightarrow> event \<Rightarrow> World \<Rightarrow> World" where
  "step u ins e w = render (eventTime e) (state w) (handler u ins e w)"

text \<open>The component after a sequence of events, the first of the list first.\<close>

fun run :: "string option \<Rightarrow> (Row \<Rightarrow> string option) \<Rightarrow> event list \<Rightarrow> World \<Rightarrow> World" where
  "run u ins [] w = w"
| "run u ins (e # es) w = run u ins es (step u ins e w)"

subsection \<open>Kinds of events and the start invariant\<close>

text \<open>
  A restart is one of the two ends of \<^verbatim>\<open>handleRestart\<close>. \<open>startedOnce\<close> relates the start time
  to the phase: the start time is set exactly while the game is active, and nothing has been
  typed into a game that is not active.
\<close>

fun isRestart :: "event \<Rightarrow> bool" where
  "isRestart (Restart newText now) = True"
| "isRestart (RestartFailed now) = True"
| "isRestart e = False"

fun isInput :: "event \<Rightarrow> bool" where
  "isInput (Input value now) = True"
| "isInput e = False"

definition startedOnce :: "World \<Rightarrow> bool" where
  "startedOnce w =
     ((isGameActive (state w) \<longleftrightarrow> startTime (state w) \<noteq> None)
      \<and> (isGameActive (state w) \<or> userInput (state w) = []))"

subsection \<open>Examples\<close>


text \<open>
  A game of the text \<^verbatim>\<open>ab\<close> with 15 seconds, started at time 1000 by typing \<^verbatim>\<open>a\<close>; and the
  first \<open>n\<close> ticks of its countdown, each 4 ms late.
\<close>

definition startedWorld :: World where
  "startedWorld =
     run None (\<lambda>r. None) [Loaded (utf16 ''ab'') Fifteen 0, Input (utf16 ''a'') 1000] initial"

definition ticks :: "nat \<Rightarrow> event list" where
  "ticks n = map (\<lambda>k. CountdownTick (1000 + 1004 * int (Suc k))) [0 ..< n]"

text \<open>
  Three sequences of events for that game. In \<open>completion\<close> the user types the whole text
  within a second. In \<open>expiry\<close> the countdown runs out after the first character. In
  \<open>lateCompletion\<close> the user types the last character 15050 ms after the start, when the
  fourteenth tick has come and the fifteenth, due 15060 ms after the start, has not.
  \<open>typedWorld\<close> is the component after \<open>completion\<close>, and \<open>finishedWorld\<close> after the callback of
  its finish effect has run as well, for a user who is signed in.
\<close>

definition completion :: "event list" where
  "completion =
     [Loaded (utf16 ''ab'') Fifteen 0, Input (utf16 ''a'') 1000, Input (utf16 ''ab'') 1500]"

definition expiry :: "event list" where
  "expiry = [Loaded (utf16 ''ab'') Fifteen 0, Input (utf16 ''a'') 1000] @ ticks 15"

definition lateCompletion :: "event list" where
  "lateCompletion =
     [Loaded (utf16 ''ab'') Fifteen 0, Input (utf16 ''a'') 1000] @ ticks 14
       @ [Input (utf16 ''ab'') 16050]"

definition typedWorld :: World where
  "typedWorld = run None (\<lambda>r. None) completion initial"

definition finishedWorld :: World where
  "finishedWorld = run (Some ''u1'') (\<lambda>r. Some ''g1'') (completion @ [FinishTimeout 1501]) initial"

text \<open>
  Two results to save: one faster than the table accepts, one within the ranges; and a
  callback of a finish effect that holds the first.
\<close>

definition fastData :: SaveData where
  "fastData = \<lparr>d_wpm = 351, d_accuracy = 100, d_duration = 1, d_textExcerpt = utf16 ''ab'',
                d_wpmHistory = None\<rparr>"

definition fastCallback :: "GameResult \<times> jsstring" where
  "fastCallback =
     (\<lparr>r_wpm = 351, r_accuracy = 100, r_duration = 1, r_wpmHistory = []\<rparr>, utf16 ''ab'')"

definition slowData :: SaveData where
  "slowData = \<lparr>d_wpm = 40, d_accuracy = 100, d_duration = 15, d_textExcerpt = utf16 ''ab'',
                d_wpmHistory = None\<rparr>"

section \<open>Properties of the rounding\<close>

text \<open>
  The exponent brackets the number, so the rounding error is at most half a unit in the last
  place: relatively, at most \<open>2\<close> to the \<open>- 53\<close>. Integers below \<open>2 ^ 53\<close> are doubles, and the
  floor of a rounded quotient of two such integers is their integer quotient.
\<close>

lemma bitlen_powi:
  assumes "0 < a"
  shows "2 powi (bitlen a - 1) \<le> (of_int a :: rat)" and "(of_int a :: rat) < 2 powi bitlen a"
proof -
  from assms have b1: "1 \<le> bitlen a"
    using bitlen_eq_zero_iff [of a] bitlen_nonneg [of a] by linarith
  from bitlen_bounds [OF assms]
  have lo: "2 ^ nat (bitlen a - 1) \<le> a" and hi: "a < 2 ^ nat (bitlen a)"
    by simp_all
  from lo have "(of_int (2 ^ nat (bitlen a - 1)) :: rat) \<le> of_int a"
    by (simp only: of_int_le_iff)
  then show "2 powi (bitlen a - 1) \<le> (of_int a :: rat)"
    using b1 by (simp add: power_int_def)
  from hi have "(of_int a :: rat) < of_int (2 ^ nat (bitlen a))"
    by (simp only: of_int_less_iff)
  then show "(of_int a :: rat) < 2 powi bitlen a"
    using b1 by (simp add: power_int_def)
qed

lemma expo_bounds:
  assumes "x \<noteq> 0"
  shows "2 powi expo x \<le> \<bar>x\<bar>" and "\<bar>x\<bar> < 2 powi (expo x + 1)"
proof -
  obtain a b where q: "quotient_of \<bar>x\<bar> = (a, b)"
    by (cases "quotient_of \<bar>x\<bar>")
  then have b: "0 < b" and x: "\<bar>x\<bar> = of_int a / of_int b"
    by (simp_all add: quotient_of_denom_pos quotient_of_div)
  from assms have "0 < \<bar>x\<bar>" by simp
  with x b have a: "0 < a"
    by (simp add: zero_less_divide_iff)
  let ?e = "bitlen a - bitlen b"
  have two: "(2::rat) \<noteq> 0" by simp
  have up: "\<bar>x\<bar> < 2 powi (?e + 1)"
  proof -
    have "of_int a / of_int b < (2 powi bitlen a) / (2 powi (bitlen b - 1) :: rat)"
      using bitlen_powi [OF a] bitlen_powi [OF b] a b
      by (intro frac_less) simp_all
    also have "\<dots> = 2 powi (bitlen a - (bitlen b - 1))"
      by (simp only: power_int_diff [OF disjI1 [OF two]])
    finally show ?thesis by (simp add: x algebra_simps)
  qed
  have lo: "2 powi (?e - 1) \<le> \<bar>x\<bar>"
  proof -
    have "(2 powi (bitlen a - 1)) / (2 powi bitlen b :: rat) \<le> of_int a / of_int b"
      using bitlen_powi [OF a] bitlen_powi [OF b] a b
      by (intro frac_le) simp_all
    moreover have "(2 powi (bitlen a - 1)) / (2 powi bitlen b :: rat) = 2 powi (bitlen a - 1 - bitlen b)"
      by (simp only: power_int_diff [OF disjI1 [OF two]])
    ultimately show ?thesis by (simp add: x algebra_simps)
  qed
  show "2 powi expo x \<le> \<bar>x\<bar>"
    using lo by (simp add: expo_def q Let_def)
  show "\<bar>x\<bar> < 2 powi (expo x + 1)"
    using up by (auto simp add: expo_def q Let_def not_le)
qed

lemma ties_even_err: "\<bar>of_int (ties_even q) - q\<bar> \<le> 1 / 2"
proof -
  have "of_int \<lfloor>q\<rfloor> \<le> q" "q < of_int \<lfloor>q\<rfloor> + 1"
    by linarith+
  then show ?thesis
    by (auto simp: ties_even_def Let_def)
qed

lemma ties_even_of_int: "ties_even (of_int m) = m"
  by (simp add: ties_even_def)

lemma fl_err:
  assumes "x \<noteq> 0"
  shows "\<bar>fl x - x\<bar> \<le> 2 powi (expo x - 53)"
proof -
  let ?u = "2 powi (expo x - 52) :: rat"
  have u: "0 < ?u" by simp
  have "fl x - x = (of_int (ties_even (x / ?u)) - x / ?u) * ?u"
    using assms by (simp add: fl_def Let_def left_diff_distrib)
  then have "\<bar>fl x - x\<bar> = \<bar>of_int (ties_even (x / ?u)) - x / ?u\<bar> * ?u"
    using u by (simp only: abs_mult abs_of_pos)
  also have "\<dots> \<le> (1 / 2) * ?u"
    using ties_even_err [of "x / ?u"] u by (intro mult_right_mono) simp_all
  also have "\<dots> = 2 powi (expo x - 53)"
  proof -
    have "(2::rat) powi (expo x - 52) = 2 powi (expo x - 53 + 1)" by simp
    also have "\<dots> = 2 powi (expo x - 53) * 2"
      by (rule power_int_add_1) simp
    finally show ?thesis by simp
  qed
  finally show ?thesis .
qed

lemma fl_rel_err: "\<bar>fl x - x\<bar> \<le> \<bar>x\<bar> / 2 ^ 53"
proof (cases "x = 0")
  case True
  then show ?thesis by (simp add: fl_def)
next
  case False
  have two: "(2::rat) \<noteq> 0" by simp
  have "2 powi (expo x - 53) = 2 powi expo x / (2 powi 53 :: rat)"
    by (simp only: power_int_diff [OF disjI1 [OF two]])
  also have "\<dots> \<le> \<bar>x\<bar> / 2 powi 53"
    using expo_bounds(1) [OF False] by (intro divide_right_mono) simp_all
  finally show ?thesis
    using fl_err [OF False] by simp
qed



lemma fl_of_int:
  assumes "\<bar>k\<bar> < 2 ^ 53"
  shows "fl (of_int k) = of_int k"
proof (cases "k = 0")
  case True
  then show ?thesis by (simp add: fl_def)
next
  case False
  let ?x = "of_int k :: rat"
  have x: "?x \<noteq> 0" using False by simp
  have "2 powi expo ?x \<le> \<bar>?x\<bar>" by (rule expo_bounds(1) [OF x])
  also have "\<bar>?x\<bar> < 2 powi 53"
    using assms by (simp flip: of_int_abs)
  finally have "2 powi expo ?x < (2 powi 53 :: rat)" .
  then have "expo ?x < 53"
    by (rule power_int_le_imp_less_exp [rotated]) simp_all
  define n where "n = nat (52 - expo ?x)"
  with \<open>expo ?x < 53\<close> have n: "expo ?x - 52 = - int n"
    by simp
  have u: "2 powi (expo ?x - 52) = 1 / (2 ^ n :: rat)"
    by (simp add: n power_int_minus field_simps)
  have xu: "?x / 2 powi (expo ?x - 52) = of_int (k * 2 ^ n)"
    by (simp add: u)
  have "fl ?x = of_int (ties_even (?x / 2 powi (expo ?x - 52))) * 2 powi (expo ?x - 52)"
    using x by (simp add: fl_def Let_def)
  also have "\<dots> = of_int (k * 2 ^ n) * (1 / 2 ^ n)"
    by (simp only: xu ties_even_of_int) (simp only: u)
  also have "\<dots> = ?x"
    by simp
  finally show ?thesis .
qed

lemma floor_fdiv:
  assumes n: "0 \<le> n" and d: "0 < d" and b: "n < 2 ^ 53"
  shows "\<lfloor>fdiv (of_int n) (of_int d)\<rfloor> = n div d"
proof (cases "n mod d = 0")
  case True
  then have "(of_int n :: rat) / of_int d = of_int (n div d)"
    using d by (simp add: of_int_div dvd_eq_mod_eq_0 [symmetric] )
  moreover have "0 \<le> n div d"
    using n d by (simp add: pos_imp_zdiv_nonneg_iff)
  moreover have "n div d \<le> n"
    using n int_div_le_self [of n d] by (cases "n = 0") simp_all
  ultimately have "(of_int n :: rat) / of_int d = of_int (n div d)" and "\<bar>n div d\<bar> < 2 ^ 53"
    using b by simp_all
  then show ?thesis
    by (simp add: fdiv_def fl_of_int)
next
  case False
  let ?x = "of_int n / of_int d :: rat"
  let ?k = "n div d"
  have nd: "n = ?k * d + n mod d" by simp
  have r1: "1 \<le> n mod d"
    using False pos_mod_sign [OF d, of n] by linarith
  have r2: "n mod d \<le> d - 1"
    using pos_mod_bound [OF d, of n] by linarith
  have dq: "(0::rat) < of_int d" using d by simp
  have "(of_int n :: rat) = of_int ?k * of_int d + of_int (n mod d)"
    by (metis nd of_int_add of_int_mult)
  then have xeq: "?x = of_int ?k + of_int (n mod d) / of_int d"
    using dq by (simp add: field_simps)
  have lo: "of_int ?k + 1 / of_int d \<le> ?x"
    unfolding xeq using r1 dq by (simp add: divide_right_mono)
  have hi: "?x \<le> of_int ?k + 1 - 1 / of_int d"
  proof -
    have "of_int (n mod d) / (of_int d :: rat) \<le> of_int (d - 1) / of_int d"
      using of_int_le_iff [THEN iffD2, OF r2] dq by (intro divide_right_mono) simp_all
    also have "\<dots> = 1 - 1 / of_int d"
      using dq by (simp add: field_simps)
    finally show ?thesis unfolding xeq by simp
  qed
  have xpos: "0 \<le> ?x" using n dq by simp
  have "?x / 2 ^ 53 < 1 / of_int d"
  proof -
    have "(of_int n :: rat) < 2 ^ 53"
      using b by (metis of_int_less_iff of_int_numeral of_int_power)
    then show ?thesis using dq by (simp add: field_simps)
  qed
  with fl_rel_err [of ?x] xpos have err: "\<bar>fl ?x - ?x\<bar> < 1 / of_int d"
    by simp
  from err lo have "of_int ?k < fl ?x" by linarith
  moreover from err hi have "fl ?x < of_int ?k + 1" by linarith
  ultimately show ?thesis
    by (simp add: fdiv_def floor_unique)
qed

text \<open>
  The rounding shows in the results. At 2400 ms and 35 words per minute the ghost has typed
  \<open>2.4 * (175 / 60)\<close> characters, which is 7, and the program computes 6; with 3 correct
  characters after 24 seconds the words per minute are \<open>0.6 / 0.4\<close>, which rounds to 2, and the
  program computes 1.
\<close>

lemma double_rounding_matters:
  "\<lfloor>fmul (fdiv 2400 1000) (fdiv (fmul 35 5) 60)\<rfloor> = 6
   \<and> \<lfloor>(2400 / 1000) * ((35 * 5) / 60 :: rat)\<rfloor> = 7
   \<and> jsround (fdiv (fdiv 3 5) (fdiv (fdiv 24000 1000) 60)) = 1
   \<and> jsround ((3 / 5) / ((24000 / 1000) / 60)) = 2"
  by code_simp

section \<open>Properties of the text comparator\<close>

lemma getCorrectChars_filter:
  "getCorrectChars u t = length (filter (\<lambda>i. Some (u ! i) = charAt t i) [0 ..< length u])"
proof -
  have "filter (\<lambda>(c, i). Some c = charAt t i) (zip u [0 ..< length u])
      = map (\<lambda>i. (u ! i, i)) (filter (\<lambda>i. Some (u ! i) = charAt t i) [0 ..< length u])"
    (is "filter ?P ?z = _")
  proof -
    have z: "?z = map (\<lambda>i. (u ! i, i)) [0 ..< length u]"
      by (rule nth_equalityI) simp_all
    show ?thesis
      unfolding z filter_map by (simp add: comp_def)
  qed
  then show ?thesis
    by (simp add: getCorrectChars_def)
qed

lemma getCorrectChars_card:
  "getCorrectChars u t = card {i. i < min (length t) (length u) \<and> u ! i = t ! i}"
proof -
  have "{i. i < min (length t) (length u) \<and> u ! i = t ! i}
      = set (filter (\<lambda>i. Some (u ! i) = charAt t i) [0 ..< length u])"
    by (auto simp: charAt_def)
  moreover have "card (set (filter (\<lambda>i. Some (u ! i) = charAt t i) [0 ..< length u]))
      = length (filter (\<lambda>i. Some (u ! i) = charAt t i) [0 ..< length u])"
    by (rule distinct_card) simp
  ultimately show ?thesis
    by (simp only: getCorrectChars_filter)
qed

lemma getCorrectChars_take:
  "getCorrectChars xs r = getCorrectChars (take (length r) xs) r"
proof -
  have "{i. i < min (length r) (length xs) \<and> xs ! i = r ! i}
      = {i. i < min (length r) (length (take (length r) xs)) \<and> take (length r) xs ! i = r ! i}"
    by auto
  then show ?thesis
    by (simp only: getCorrectChars_card)
qed

text \<open>
  Claim C2. The number of correct characters is the number of positions below both lengths at
  which the typed code unit equals the reference code unit; so it is at most the smaller of the
  two lengths, typed code units beyond the reference are never counted, and it is 0 as soon as
  one of the two strings is empty.
\<close>

theorem C2_correctCount:
  "getCorrectChars typed reference
     = card {i. i < min (length reference) (length typed) \<and> typed ! i = reference ! i}
   \<and> getCorrectChars typed reference \<le> min (length reference) (length typed)
   \<and> getCorrectChars (typed @ extra) reference
       = getCorrectChars (take (length reference) (typed @ extra)) reference
   \<and> getCorrectChars [] reference = 0
   \<and> getCorrectChars typed [] = 0"
proof -
  let ?m = "min (length reference) (length typed)"
  have le: "getCorrectChars typed reference \<le> ?m"
  proof -
    have "{i. i < ?m \<and> typed ! i = reference ! i} \<subseteq> {..< ?m}"
      by auto
    then have "card {i. i < ?m \<and> typed ! i = reference ! i} \<le> card {..< ?m}"
      by (intro card_mono) simp_all
    then show ?thesis
      by (simp add: getCorrectChars_card)
  qed
  have beyond: "getCorrectChars (typed @ extra) reference
       = getCorrectChars (take (length reference) (typed @ extra)) reference"
    by (rule getCorrectChars_take)
  have e1: "getCorrectChars [] reference = 0"
    by (simp add: getCorrectChars_def)
  have e2: "getCorrectChars typed [] = 0"
    by (simp add: getCorrectChars_card)
  from le beyond e1 e2 show ?thesis
    by (simp only: getCorrectChars_card [symmetric] simp_thms)
qed

section \<open>Properties of the WPM history\<close>

lemma recordSample_cases:
  "recordSample h t w =
     (if h = [] \<or> fst (last h) \<noteq> t then h @ [(t, w)] else butlast h @ [(t, w)])"
  by (simp add: recordSample_def lastEntry_def)

lemma recordSample_last: "last (recordSample h t w) = (t, w)"
  by (simp add: recordSample_cases)

lemma recordSample_nonempty: "recordSample h t w \<noteq> []"
  by (simp add: recordSample_cases)

lemma recordSample_same_length:
  "length (foldl (\<lambda>h w. recordSample h t w) (recordSample h0 t w0) ws)
     = length (recordSample h0 t w0)"
proof (induction ws arbitrary: h0 w0 rule: rev_induct)
  case Nil
  show ?case by simp
next
  case (snoc w ws)
  let ?h = "foldl (\<lambda>h w. recordSample h t w) (recordSample h0 t w0) ws"
  have ne: "?h \<noteq> []" and lst: "fst (last ?h) = t"
    by (cases ws rule: rev_cases; simp add: recordSample_nonempty recordSample_last)+
  then have "length (recordSample ?h t w) = length ?h"
    by (simp add: recordSample_cases)
  with snoc.IH show ?case
    by simp
qed

text \<open>
  Claim C4. A sample is appended when the history is empty or its last entry is for another
  second, and replaces the last entry otherwise. Hence any number of further samples for the
  same second leaves the length of the history as it is, and the first sample of a second other
  than the last recorded one makes the history longer by exactly one entry.
\<close>

theorem C4_recordSample:
  "recordSample history timeSeconds wpm =
     (if history = [] \<or> fst (last history) \<noteq> timeSeconds
      then history @ [(timeSeconds, wpm)]
      else butlast history @ [(timeSeconds, wpm)])
   \<and> length (foldl (\<lambda>h w. recordSample h timeSeconds w)
               (recordSample history timeSeconds wpm) ws)
       = length (recordSample history timeSeconds wpm)
   \<and> (history = [] \<or> fst (last history) \<noteq> timeSeconds
        \<longrightarrow> length (recordSample history timeSeconds wpm) = length history + 1)
   \<and> (history \<noteq> [] \<and> fst (last history) = timeSeconds
        \<longrightarrow> length (recordSample history timeSeconds wpm) = length history)"
proof -
  have "history \<noteq> [] \<Longrightarrow> length (butlast history @ [(timeSeconds, wpm)]) = length history"
    by (cases history rule: rev_cases) simp_all
  then show ?thesis
    by (simp only: recordSample_same_length) (auto simp: recordSample_cases)
qed

theorem C4_recordSample_witness:
  "recordSample [(0, 40)] 0 50 = [(0, 50)]
   \<and> recordSample [(0, 50)] 1 60 = [(0, 50), (1, 60)]
   \<and> length (foldl (\<lambda>h w. recordSample h 1 w) (recordSample [(0, 50)] 1 60) [61, 62, 63]) = 2
   \<and> length (recordSample [(0, 50)] 1 60) = length [(0, 50) :: sample] + 1
   \<and> length (recordSample [(0, 40)] 0 50) = length [(0, 40) :: sample]"
  using C4_recordSample [of "[(0, 40)]" 0 50 "[]"]
    C4_recordSample [of "[(0, 50)]" 1 60 "[61, 62, 63]"]
  by (simp add: recordSample_cases)

section \<open>Words per minute\<close>















section \<open>Properties of the ghost cursor\<close>





section \<open>Properties of saving a result\<close>

lemma saveGameResult_invalid:
  assumes "\<not> validData data"
  shows "\<exists>c. saveGameResult userId insertRow data db = (Inl (FailedToSave c), db) \<and> c \<noteq> InsertFailed"
  using assms by (auto simp: saveGameResult_def validData_def)

lemma saveGameResult_anonymous:
  assumes "validData data" "userId = None \<or> userId = Some []"
  shows "saveGameResult userId insertRow data db = (Inr \<lparr>success = False, gameResultId = None\<rparr>, db)"
  using assms by (auto simp: saveGameResult_def validData_def)

lemma saveGameResult_insert:
  assumes "validData data" "userId = Some uid" "uid \<noteq> []"
  shows "saveGameResult userId insertRow data db =
     (case insertRow \<lparr>row_userId = uid, row_data = data\<rparr> of
        None \<Rightarrow> (Inl (FailedToSave InsertFailed), db)
      | Some rid \<Rightarrow> (Inr \<lparr>success = True, gameResultId = Some rid\<rparr>,
                     db @ [\<lparr>row_userId = uid, row_data = data\<rparr>]))"
  using assms by (auto simp: saveGameResult_def validData_def Let_def)

lemma state_finishCallback:
  "state (finishCallback userId insertRow cb w) =
     (state w)\<lparr>isGameFinished := True, finalWPM := r_wpm (fst cb),
               finalAccuracy := r_accuracy (fst cb)\<rparr>"
  by (simp add: finishCallback_def Let_def)

lemma finishCallback_invalid:
  assumes "\<not> validData (toSaveData (fst cb) (snd cb))"
  shows "finishCallback userId insertRow cb w =
     w\<lparr>state := (state w)\<lparr>isGameFinished := True, finalWPM := r_wpm (fst cb),
                           finalAccuracy := r_accuracy (fst cb)\<rparr>,
       submitted := submitted w @ [toSaveData (fst cb) (snd cb)]\<rparr>"
proof -
  from saveGameResult_invalid [OF assms, of userId insertRow "rows w"]
  obtain c where "saveGameResult userId insertRow (toSaveData (fst cb) (snd cb)) (rows w)
      = (Inl (FailedToSave c), rows w)"
    by blast
  then show ?thesis
    by (simp add: finishCallback_def Let_def)
qed

text \<open>
  Claim C9, as the program has it. Values outside the ranges (words per minute in [0, 350],
  accuracy in [0, 100], duration in [0, 300]) are rejected before the session is looked up and
  before any insert: the call fails and the table is as it was. The callback of a finish effect
  sets the state of the game before it calls \<^verbatim>\<open>saveGameResult\<close>, and the state it sets does not
  depend on how the call ends; when the values are rejected, all that is left of the call is
  the record of its argument. A submission without an identity whose values are within the
  ranges is answered by \<^verbatim>\<open>{ success: false, gameResultId: null }\<close>, and the table is as it was.
\<close>

theorem C9_saveGameResult:
  "(\<not> validData data \<longrightarrow>
      (\<exists>c. saveGameResult userId insertRow data db = (Inl (FailedToSave c), db)
           \<and> c \<noteq> InsertFailed))
   \<and> (validData data \<and> (userId = None \<or> userId = Some []) \<longrightarrow>
        saveGameResult userId insertRow data db
          = (Inr \<lparr>success = False, gameResultId = None\<rparr>, db))
   \<and> state (finishCallback userId insertRow cb w)
       = (state w)\<lparr>isGameFinished := True, finalWPM := r_wpm (fst cb),
                   finalAccuracy := r_accuracy (fst cb)\<rparr>
   \<and> (\<not> validData (toSaveData (fst cb) (snd cb)) \<longrightarrow>
        finishCallback userId insertRow cb w
          = w\<lparr>state := (state w)\<lparr>isGameFinished := True, finalWPM := r_wpm (fst cb),
                                  finalAccuracy := r_accuracy (fst cb)\<rparr>,
              submitted := submitted w @ [toSaveData (fst cb) (snd cb)]\<rparr>)"
  using saveGameResult_invalid [of data userId insertRow db]
    saveGameResult_anonymous [of data userId insertRow db]
    state_finishCallback [of userId insertRow cb w]
    finishCallback_invalid [of cb userId insertRow w]
  by blast

theorem C9_saveGameResult_witness:
  "\<not> validData fastData
   \<and> (\<exists>c. saveGameResult (Some ''u1'') (\<lambda>r. Some ''g1'') fastData []
            = (Inl (FailedToSave c), []) \<and> c \<noteq> InsertFailed)
   \<and> validData slowData
   \<and> saveGameResult None (\<lambda>r. Some ''g1'') slowData []
       = (Inr \<lparr>success = False, gameResultId = None\<rparr>, [])
   \<and> \<not> validData (toSaveData (fst fastCallback) (snd fastCallback))
   \<and> rows (finishCallback (Some ''u1'') (\<lambda>r. Some ''g1'') fastCallback startedWorld) = []
   \<and> isGameFinished (state (finishCallback (Some ''u1'') (\<lambda>r. Some ''g1'') fastCallback startedWorld))
   \<and> isGameActive (state (finishCallback (Some ''u1'') (\<lambda>r. Some ''g1'') fastCallback startedWorld))"
proof -
  have v: "\<not> validData fastData" "validData slowData"
    "\<not> validData (toSaveData (fst fastCallback) (snd fastCallback))"
    by (simp_all add: validData_def fastData_def slowData_def fastCallback_def toSaveData_def)
  have s: "rows startedWorld = []" "isGameActive (state startedWorld)"
    by code_simp+
  from C9_saveGameResult [of fastData "Some ''u1''" "\<lambda>r. Some ''g1''" "[]"] v(1)
  have a: "\<exists>c. saveGameResult (Some ''u1'') (\<lambda>r. Some ''g1'') fastData []
            = (Inl (FailedToSave c), []) \<and> c \<noteq> InsertFailed"
    by blast
  from C9_saveGameResult [of slowData None "\<lambda>r. Some ''g1''" "[]"] v(2)
  have b: "saveGameResult None (\<lambda>r. Some ''g1'') slowData []
       = (Inr \<lparr>success = False, gameResultId = None\<rparr>, [])"
    by blast
  from C9_saveGameResult [of fastData "Some ''u1''" "\<lambda>r. Some ''g1''" "[]" fastCallback startedWorld] v(3)
  have "finishCallback (Some ''u1'') (\<lambda>r. Some ''g1'') fastCallback startedWorld
      = startedWorld\<lparr>state := (state startedWorld)\<lparr>isGameFinished := True,
            finalWPM := r_wpm (fst fastCallback), finalAccuracy := r_accuracy (fst fastCallback)\<rparr>,
          submitted := submitted startedWorld @ [toSaveData (fst fastCallback) (snd fastCallback)]\<rparr>"
    by blast
  with s have c: "rows (finishCallback (Some ''u1'') (\<lambda>r. Some ''g1'') fastCallback startedWorld) = []"
    "isGameFinished (state (finishCallback (Some ''u1'') (\<lambda>r. Some ''g1'') fastCallback startedWorld))"
    "isGameActive (state (finishCallback (Some ''u1'') (\<lambda>r. Some ''g1'') fastCallback startedWorld))"
    by simp_all
  from v a b c show ?thesis
    by blast
qed

text \<open>
  Claim C9 as stated fails where it says that a submission without an identity gets the
  answer that is not an error: the ranges are checked first, so such a submission with 351
  words per minute fails like any other.
\<close>

theorem C9_counterexample:
  "\<not> (\<forall>data insertRow db. \<exists>db'.
        saveGameResult None insertRow data db = (Inr \<lparr>success = False, gameResultId = None\<rparr>, db'))"
proof
  assume "\<forall>data insertRow db. \<exists>db'.
        saveGameResult None insertRow data db = (Inr \<lparr>success = False, gameResultId = None\<rparr>, db')"
  then obtain db' where "saveGameResult None (\<lambda>r. None) fastData []
      = (Inr \<lparr>success = False, gameResultId = None\<rparr>, db')"
    by blast
  then show False
    by (simp add: saveGameResult_def fastData_def)
qed

section \<open>Properties of the component\<close>

lemma state_runCalculateWPM: "state (runCalculateWPM now w) = state w"
  by (simp add: runCalculateWPM_def split: option.split)

lemma state_samplerEffect: "state (samplerEffect now w) = state w"
  by (simp add: samplerEffect_def state_runCalculateWPM)

lemma state_render: "state (render now prev w) = state w"
  by (simp add: render_def Let_def state_samplerEffect)

lemma state_step: "state (step u ins e w) = state (handler u ins e w)"
  by (simp add: step_def state_render)

lemma seconds_pos: "0 < seconds c"
  by (cases c) (simp_all add: seconds_def)

lemma timer_handler_nonneg:
  assumes "0 \<le> timer (state w)"
  shows "0 \<le> timer (state (handler u ins e w))"
proof (cases e)
  case (FinishTimeout now)
  then show ?thesis
    using assms by (cases "pending w") (simp_all add: state_finishCallback)
next
  case (Loaded newText c now)
  then show ?thesis using seconds_pos [of c] by simp
next
  case (Restart newText now)
  then show ?thesis
    using seconds_pos [of "timerPreference w"] by (simp add: handleRestart_def freshState_def)
next
  case (RestartFailed now)
  then show ?thesis
    using seconds_pos [of "timerPreference w"] by (simp add: handleRestartFailed_def freshState_def)
next
  case (TimerToggle now)
  then show ?thesis
    using assms seconds_pos [of Fifteen] seconds_pos [of Thirty]
    by (simp add: handleTimerToggle_def Let_def)
next
  case (LoadFailed c now)
  then show ?thesis by simp
next
  case (Input v now)
  then show ?thesis using assms by (simp add: handleInput_def Let_def)
next
  case (CountdownTick now)
  then show ?thesis using assms by (simp add: countdownArmed_def countdownTick_def)
next
  case (SampleTick now)
  then show ?thesis using assms by (simp add: state_runCalculateWPM)
next
  case (Rerender now)
  then show ?thesis using assms by simp
qed

lemma timer_run_nonneg:
  assumes "0 \<le> timer (state w)"
  shows "0 \<le> timer (state (run u ins es w))"
  using assms
proof (induction es arbitrary: w)
  case Nil
  then show ?case by simp
next
  case (Cons e es)
  from Cons.prems have "0 \<le> timer (state (step u ins e w))"
    by (simp add: state_step timer_handler_nonneg)
  then show ?case
    by (simp add: Cons.IH)
qed

text \<open>
  Claim C10. In every state that the component reaches from its mount, whatever the events,
  the timer is not negative. A tick of the countdown takes one second off while the game is
  active with a positive timer and does nothing otherwise; so the countdown stops at 0.
\<close>

theorem C10_timer_never_negative:
  "0 \<le> timer (state (run userId insertRow events initial))
   \<and> timer (state (step userId insertRow (CountdownTick now) w))
       = (if isGameActive (state w) \<and> 0 < timer (state w) then timer (state w) - 1
          else timer (state w))
   \<and> (timer (state w) = 0 \<longrightarrow> timer (state (step userId insertRow (CountdownTick now) w)) = 0)"
proof -
  have "0 \<le> timer (state initial)"
    by (simp add: initial_def initialState_def)
  then have "0 \<le> timer (state (run userId insertRow events initial))"
    by (rule timer_run_nonneg)
  then show ?thesis
    by (simp add: state_step countdownArmed_def countdownTick_def)
qed

theorem C10_timer_never_negative_witness:
  "timer (state startedWorld) = 15
   \<and> timer (state (run None (\<lambda>r. None) (ticks 15) startedWorld)) = 0
   \<and> timer (state (run None (\<lambda>r. None) (ticks 20) startedWorld)) = 0
   \<and> 0 \<le> timer (state (run None (\<lambda>r. None)
              ([Loaded (utf16 ''ab'') Fifteen 0, Input (utf16 ''a'') 1000] @ ticks 20) initial))
   \<and> timer (state (step None (\<lambda>r. None) (CountdownTick 17064)
              (run None (\<lambda>r. None) (ticks 15) startedWorld))) = 0"
proof -
  have z: "timer (state (run None (\<lambda>r. None) (ticks 15) startedWorld)) = 0"
    by code_simp
  have "timer (state startedWorld) = 15"
    by code_simp
  moreover note z
  moreover from C10_timer_never_negative
    [of None "\<lambda>r. None" "[]" 17064 "run None (\<lambda>r. None) (ticks 15) startedWorld"] z
  have "timer (state (step None (\<lambda>r. None) (CountdownTick 17064)
              (run None (\<lambda>r. None) (ticks 15) startedWorld))) = 0"
    by blast
  moreover have "timer (state (run None (\<lambda>r. None) (ticks 20) startedWorld)) = 0"
    by code_simp
  moreover from C10_timer_never_negative
    [of None "\<lambda>r. None" "[Loaded (utf16 ''ab'') Fifteen 0, Input (utf16 ''a'') 1000] @ ticks 20"]
  have "0 \<le> timer (state (run None (\<lambda>r. None)
              ([Loaded (utf16 ''ab'') Fifteen 0, Input (utf16 ''a'') 1000] @ ticks 20) initial))"
    by blast
  ultimately show ?thesis
    by blast
qed

subsection \<open>The start time\<close>

lemma startedOnce_handler:
  assumes "startedOnce w"
  shows "startedOnce (w\<lparr>state := state (handler u ins e w)\<rparr>)"
proof (cases e)
  case (FinishTimeout now)
  then show ?thesis
    using assms by (cases "pending w") (auto simp: startedOnce_def state_finishCallback)
next
  case (Loaded newText c now)
  then show ?thesis using assms by (auto simp: startedOnce_def)
next
  case (LoadFailed c now)
  then show ?thesis using assms by (auto simp: startedOnce_def)
next
  case (Input v now)
  then show ?thesis using assms by (auto simp: startedOnce_def handleInput_def Let_def)
next
  case (CountdownTick now)
  then show ?thesis using assms by (auto simp: startedOnce_def countdownTick_def)
next
  case (SampleTick now)
  then show ?thesis using assms by (auto simp: startedOnce_def state_runCalculateWPM)
next
  case (Restart newText now)
  then show ?thesis by (auto simp: startedOnce_def handleRestart_def freshState_def)
next
  case (RestartFailed now)
  then show ?thesis by (auto simp: startedOnce_def handleRestartFailed_def freshState_def)
next
  case (TimerToggle now)
  then show ?thesis using assms by (auto simp: startedOnce_def handleTimerToggle_def Let_def)
next
  case (Rerender now)
  then show ?thesis using assms by (auto simp: startedOnce_def)
qed

lemma startedOnce_step:
  assumes "startedOnce w"
  shows "startedOnce (step u ins e w)"
  using startedOnce_handler [OF assms, of u ins e]
  by (auto simp: startedOnce_def state_step)

lemma startedOnce_run:
  assumes "startedOnce w"
  shows "startedOnce (run u ins es w)"
  using assms
  by (induction es arbitrary: w) (simp_all add: startedOnce_step)

lemma started_handler:
  assumes "isGameActive (state w)" "startTime (state w) = Some t" "\<not> isRestart e"
  shows "isGameActive (state (handler u ins e w)) \<and> startTime (state (handler u ins e w)) = Some t"
proof (cases e)
  case (FinishTimeout now)
  then show ?thesis
    using assms by (cases "pending w") (simp_all add: state_finishCallback)
next
  case (Loaded newText c now)
  then show ?thesis using assms by simp
next
  case (LoadFailed c now)
  then show ?thesis using assms by simp
next
  case (Input v now)
  then show ?thesis using assms by (simp add: handleInput_def Let_def)
next
  case (CountdownTick now)
  then show ?thesis using assms by (simp add: countdownTick_def)
next
  case (SampleTick now)
  then show ?thesis using assms by (simp add: state_runCalculateWPM)
next
  case (Restart newText now)
  then show ?thesis using assms by simp
next
  case (RestartFailed now)
  then show ?thesis using assms by simp
next
  case (TimerToggle now)
  then show ?thesis using assms by (simp add: handleTimerToggle_def Let_def)
next
  case (Rerender now)
  then show ?thesis using assms by simp
qed

lemma started_run:
  assumes "isGameActive (state w)" "startTime (state w) = Some t" "\<forall>e \<in> set es. \<not> isRestart e"
  shows "isGameActive (state (run u ins es w)) \<and> startTime (state (run u ins es w)) = Some t"
  using assms
proof (induction es arbitrary: w)
  case Nil
  then show ?case by simp
next
  case (Cons e es)
  from Cons.prems have "isGameActive (state (step u ins e w)) \<and> startTime (state (step u ins e w)) = Some t"
    by (simp add: state_step started_handler)
  with Cons.prems(3) show ?case
    by (simp add: Cons.IH)
qed

lemma absent_handler:
  assumes "startTime (state w) = None" "\<not> isInput e"
  shows "startTime (state (handler u ins e w)) = None"
proof (cases e)
  case (FinishTimeout now)
  then show ?thesis
    using assms by (cases "pending w") (simp_all add: state_finishCallback)
next
  case (Loaded newText c now)
  then show ?thesis using assms by simp
next
  case (LoadFailed c now)
  then show ?thesis using assms by simp
next
  case (Input v now)
  then show ?thesis using assms by simp
next
  case (CountdownTick now)
  then show ?thesis using assms by (simp add: countdownTick_def)
next
  case (SampleTick now)
  then show ?thesis using assms by (simp add: state_runCalculateWPM)
next
  case (Restart newText now)
  then show ?thesis by (simp add: handleRestart_def freshState_def)
next
  case (RestartFailed now)
  then show ?thesis by (simp add: handleRestartFailed_def freshState_def)
next
  case (TimerToggle now)
  then show ?thesis using assms by (simp add: handleTimerToggle_def Let_def)
next
  case (Rerender now)
  then show ?thesis using assms by simp
qed

lemma first_input:
  assumes "\<not> isGameActive (state w)" "userInput (state w) = []" "\<not> isGameFinished (state w)"
    "startTime (state w) = None"
  shows "startTime (state (step u ins (Input v now) w)) = (if v \<noteq> [] then Some now else None)"
    and "isGameActive (state (step u ins (Input v now) w)) \<longleftrightarrow> v \<noteq> []"
  using assms by (simp_all add: state_step handleInput_def Let_def)

lemma delete_all_input:
  assumes "isGameActive (state w)" "startTime (state w) = Some t" "\<not> isGameFinished (state w)"
  shows "userInput (state (step u ins (Input [] now) w)) = []"
    and "isGameActive (state (step u ins (Input [] now) w))"
    and "startTime (state (step u ins (Input [] now) w)) = Some t"
  using assms by (simp_all add: state_step handleInput_def Let_def)

lemma restart_fresh:
  "startTime (state (step u ins (Restart newText now) w)) = None"
  "\<not> isGameActive (state (step u ins (Restart newText now) w))"
  "startTime (state (step u ins (RestartFailed now) w)) = None"
  "\<not> isGameActive (state (step u ins (RestartFailed now) w))"
  by (simp_all add: state_step handleRestart_def handleRestartFailed_def freshState_def)

text \<open>
  Claim C6. In every reachable state the start time is set exactly while the game is active.
  Once set, it keeps its value and the game stays active through any events that are not a
  restart; in particular, when the user deletes all input, the input is empty and the game is
  still active with the start time it had. In a game that has not started, an input event sets
  the start time, to the time of the event, exactly when its value is not empty, and no other
  event sets it. A restart gives a game with no start time that is not active.
\<close>

theorem C6_startTime_set_once:
  "startedOnce (run u ins es initial)
   \<and> (isGameActive (state w) \<and> startTime (state w) = Some t \<and> (\<forall>e \<in> set es. \<not> isRestart e)
        \<longrightarrow> isGameActive (state (run u ins es w)) \<and> startTime (state (run u ins es w)) = Some t)
   \<and> (isGameActive (state w) \<and> startTime (state w) = Some t \<and> \<not> isGameFinished (state w)
        \<longrightarrow> userInput (state (step u ins (Input [] now) w)) = []
            \<and> isGameActive (state (step u ins (Input [] now) w))
            \<and> startTime (state (step u ins (Input [] now) w)) = Some t)
   \<and> (\<not> isGameActive (state w) \<and> userInput (state w) = [] \<and> \<not> isGameFinished (state w)
          \<and> startTime (state w) = None
        \<longrightarrow> startTime (state (step u ins (Input v now) w)) = (if v \<noteq> [] then Some now else None)
            \<and> (isGameActive (state (step u ins (Input v now) w)) \<longleftrightarrow> v \<noteq> []))
   \<and> (startTime (state w) = None \<and> \<not> isInput e \<longrightarrow> startTime (state (step u ins e w)) = None)
   \<and> startTime (state (step u ins (Restart newText now) w)) = None
   \<and> \<not> isGameActive (state (step u ins (Restart newText now) w))"
proof -
  have "startedOnce initial"
    by (auto simp: startedOnce_def initial_def initialState_def)
  then have "startedOnce (run u ins es initial)"
    by (rule startedOnce_run)
  then have c1: "startedOnce (run u ins es initial)" .
  have c2: "isGameActive (state w) \<and> startTime (state w) = Some t \<and> (\<forall>e \<in> set es. \<not> isRestart e)
        \<longrightarrow> isGameActive (state (run u ins es w)) \<and> startTime (state (run u ins es w)) = Some t"
    using started_run [of w t es u ins] by blast
  have c3: "isGameActive (state w) \<and> startTime (state w) = Some t \<and> \<not> isGameFinished (state w)
        \<longrightarrow> userInput (state (step u ins (Input [] now) w)) = []
            \<and> isGameActive (state (step u ins (Input [] now) w))
            \<and> startTime (state (step u ins (Input [] now) w)) = Some t"
    using delete_all_input [of w t u ins now] by blast
  have c4: "\<not> isGameActive (state w) \<and> userInput (state w) = [] \<and> \<not> isGameFinished (state w)
          \<and> startTime (state w) = None
        \<longrightarrow> startTime (state (step u ins (Input v now) w)) = (if v \<noteq> [] then Some now else None)
            \<and> (isGameActive (state (step u ins (Input v now) w)) \<longleftrightarrow> v \<noteq> [])"
    using first_input [of w u ins v now] by (intro impI) (elim conjE, simp)
  have c5: "startTime (state w) = None \<and> \<not> isInput e \<longrightarrow> startTime (state (step u ins e w)) = None"
    by (simp add: state_step absent_handler)
  from c1 c2 c3 c4 c5 restart_fresh(1,2) [of u ins newText now w] show ?thesis
    by (intro conjI)
qed

theorem C6_startTime_set_once_witness:
  "isGameActive (state startedWorld) \<and> startTime (state startedWorld) = Some 1000
   \<and> \<not> isGameFinished (state startedWorld)
   \<and> userInput (state (step None (\<lambda>r. None) (Input [] 1200) startedWorld)) = []
   \<and> startTime (state (step None (\<lambda>r. None) (Input [] 1200) startedWorld)) = Some 1000
   \<and> startTime (state (run None (\<lambda>r. None)
        [Input [] 1200, CountdownTick 2004, Input (utf16 ''a'') 2100, SampleTick 2200] startedWorld))
       = Some 1000
   \<and> startTime (state (step None (\<lambda>r. None) (Restart (utf16 ''cd'') 3000) startedWorld)) = None
   \<and> startTime (state (step None (\<lambda>r. None) (Input (utf16 ''a'') 1000)
        (step None (\<lambda>r. None) (Loaded (utf16 ''ab'') Fifteen 0) initial))) = Some 1000
   \<and> startTime (state (step None (\<lambda>r. None) (CountdownTick 500)
        (step None (\<lambda>r. None) (Loaded (utf16 ''ab'') Fifteen 0) initial))) = None"
proof -
  let ?es = "[Input [] 1200, CountdownTick 2004, Input (utf16 ''a'') 2100, SampleTick 2200]"
  let ?l = "step None (\<lambda>r. None) (Loaded (utf16 ''ab'') Fifteen 0) initial"
  have h: "isGameActive (state startedWorld)" "startTime (state startedWorld) = Some 1000"
    "\<not> isGameFinished (state startedWorld)"
    by code_simp+
  have r: "\<forall>e \<in> set ?es. \<not> isRestart e"
    by simp
  have l: "\<not> isGameActive (state ?l)" "userInput (state ?l) = []" "\<not> isGameFinished (state ?l)"
    "startTime (state ?l) = None"
    by code_simp+
  note c = C6_startTime_set_once [of None "\<lambda>r. None" ?es startedWorld 1000 1200 "utf16 ''a''"
      "Rerender 0" "utf16 ''cd''"]
  note d = C6_startTime_set_once [of None "\<lambda>r. None" "[]" ?l 0 1000 "utf16 ''a''"
      "Rerender 0" "utf16 ''cd''"]
  have "startTime (state (run None (\<lambda>r. None) ?es startedWorld)) = Some 1000"
    using c h r by blast
  moreover have "userInput (state (step None (\<lambda>r. None) (Input [] 1200) startedWorld)) = []"
    "startTime (state (step None (\<lambda>r. None) (Input [] 1200) startedWorld)) = Some 1000"
    using c h by blast+
  moreover have "startTime (state (step None (\<lambda>r. None) (Restart (utf16 ''cd'') 3000) startedWorld)) = None"
    using C6_startTime_set_once [of None "\<lambda>r. None" ?es startedWorld 1000 3000 "utf16 ''a''"
      "Rerender 0" "utf16 ''cd''"] by blast
  moreover have "startTime (state (step None (\<lambda>r. None) (Input (utf16 ''a'') 1000) ?l)) = Some 1000"
  proof -
    have "utf16 ''a'' \<noteq> []" by (simp add: utf16_def)
    with d l show ?thesis by simp
  qed
  moreover have "startTime (state (step None (\<lambda>r. None) (CountdownTick 500) ?l)) = None"
  proof -
    have "\<not> isInput (CountdownTick 500)" by simp
    with l(4) C6_startTime_set_once [of None "\<lambda>r. None" "[]" ?l 0 1000 "utf16 ''a''"
      "CountdownTick 500" "utf16 ''cd''"]
    show ?thesis by blast
  qed
  ultimately show ?thesis
    using h by blast
qed

subsection \<open>The duration of a result\<close>

lemma calculateResults_duration:
  assumes "startTime s = Some t0" "t0 \<noteq> 0" "t0 \<le> now" "now - t0 < 2 ^ 53"
  shows "r_duration (calculateResults now s hist) = (now - t0) div 1000"
proof -
  have "\<lfloor>fdiv (of_int (now - t0)) (of_int 1000)\<rfloor> = (now - t0) div 1000"
    using assms by (intro floor_fdiv) simp_all
  then show ?thesis
    using assms by (simp add: calculateResults_def Let_def truthy_def numberOf_def)
qed

lemma duration_less_iff: "(n::int) div 1000 < c \<longleftrightarrow> n < 1000 * c"
proof -
  define q r where "q = n div 1000" and "r = n mod 1000"
  have "n = 1000 * q + r" "0 \<le> r" "r < 1000"
    by (simp_all add: q_def r_def)
  then have "q < c \<longleftrightarrow> n < 1000 * c"
    by linarith
  then show ?thesis
    by (simp only: q_def)
qed

lemma finish_effects_duration:
  assumes "startTime s = Some t0" "t0 \<noteq> 0" "t0 \<le> now" "now - t0 < 2 ^ 53"
    and "cb \<in> set (timerFinishEffect now s hist @ completionFinishEffect now s hist)"
  shows "r_duration (fst cb) = (now - t0) div 1000"
  using assms(5) calculateResults_duration [OF assms(1-4), of hist]
  by (auto simp: timerFinishEffect_def completionFinishEffect_def split: if_splits)

lemma finishCallback_submits:
  "submitted (finishCallback u ins cb w) = submitted w @ [toSaveData (fst cb) (snd cb)]"
  by (simp add: finishCallback_def Let_def)

lemma pending_render:
  "pending (render now prev w) = pending w
     @ (if timerFinishDeps (state w) \<noteq> timerFinishDeps prev \<or> historyUnseen w
        then timerFinishEffect now (state w) (wpmHistory w) else [])
     @ (if completionFinishDeps (state w) \<noteq> completionFinishDeps prev \<or> historyUnseen w
        then completionFinishEffect now (state w) (wpmHistory w) else [])"
  by (simp add: render_def Let_def)

text \<open>
  Claim C8, as the program has it. The finish effects are the only source of results, and by
  either of them, for a game started at \<open>t0\<close> and an effect that runs at \<open>now\<close>, the duration of
  the result is the whole seconds of wall-clock time since the start, \<open>(now - t0) div 1000\<close>
  (the time stamps being as they are: the start not after \<open>now\<close>, less than \<open>2 ^ 53\<close> ms ago).
  That is also the duration handed to \<^verbatim>\<open>saveGameResult\<close>. It is not the configured duration,
  and it is below the configured duration exactly when less than that many seconds of
  wall-clock time have passed; the countdown, which a chain of one-second intervals drives,
  does not enter it.
\<close>

theorem C8_durationSeconds:
  "(startTime s = Some t0 \<and> t0 \<noteq> 0 \<and> t0 \<le> now \<and> now - t0 < 2 ^ 53 \<longrightarrow>
      (\<forall>cb \<in> set (timerFinishEffect now s hist @ completionFinishEffect now s hist).
          r_duration (fst cb) = (now - t0) div 1000
        \<and> (r_duration (fst cb) < configured \<longleftrightarrow> now - t0 < 1000 * configured)
        \<and> d_duration (last (submitted (finishCallback u ins cb w))) = (now - t0) div 1000))
   \<and> set (pending (render now prev w))
       \<subseteq> set (pending w) \<union> set (timerFinishEffect now (state w) (wpmHistory w)
                                  @ completionFinishEffect now (state w) (wpmHistory w))"
proof -
  have p1: "startTime s = Some t0 \<and> t0 \<noteq> 0 \<and> t0 \<le> now \<and> now - t0 < 2 ^ 53 \<longrightarrow>
      (\<forall>cb \<in> set (timerFinishEffect now s hist @ completionFinishEffect now s hist).
          r_duration (fst cb) = (now - t0) div 1000
        \<and> (r_duration (fst cb) < configured \<longleftrightarrow> now - t0 < 1000 * configured)
        \<and> d_duration (last (submitted (finishCallback u ins cb w))) = (now - t0) div 1000)"
  proof (intro impI ballI)
    fix cb
    assume h: "startTime s = Some t0 \<and> t0 \<noteq> 0 \<and> t0 \<le> now \<and> now - t0 < 2 ^ 53"
      and c: "cb \<in> set (timerFinishEffect now s hist @ completionFinishEffect now s hist)"
    from h have h': "startTime s = Some t0" "t0 \<noteq> 0" "t0 \<le> now" "now - t0 < 2 ^ 53"
      by blast+
    have d: "r_duration (fst cb) = (now - t0) div 1000"
      by (rule finish_effects_duration [OF h' c])
    show "r_duration (fst cb) = (now - t0) div 1000
        \<and> (r_duration (fst cb) < configured \<longleftrightarrow> now - t0 < 1000 * configured)
        \<and> d_duration (last (submitted (finishCallback u ins cb w))) = (now - t0) div 1000"
      by (simp add: d duration_less_iff finishCallback_submits toSaveData_def)
  qed
  have p2: "set (pending (render now prev w))
       \<subseteq> set (pending w) \<union> set (timerFinishEffect now (state w) (wpmHistory w)
                                  @ completionFinishEffect now (state w) (wpmHistory w))"
    by (auto simp: pending_render)
  from p1 p2 show ?thesis
    by (rule conjI)
qed

theorem C8_durationSeconds_witness:
  "startTime (state typedWorld) = Some 1000
   \<and> length (timerFinishEffect 1500 (state typedWorld) [] @ completionFinishEffect 1500 (state typedWorld) []) = 1
   \<and> r_duration (fst (hd (timerFinishEffect 1500 (state typedWorld) []
                           @ completionFinishEffect 1500 (state typedWorld) []))) = 0
   \<and> r_duration (fst (hd (timerFinishEffect 1500 (state typedWorld) []
                           @ completionFinishEffect 1500 (state typedWorld) []))) < seconds Fifteen"
proof -
  let ?fx = "timerFinishEffect 1500 (state typedWorld) [] @ completionFinishEffect 1500 (state typedWorld) []"
  have h: "startTime (state typedWorld) = Some 1000"
    by code_simp
  have n: "length ?fx = 1"
    by code_simp
  then have m: "hd ?fx \<in> set ?fx"
    by (cases ?fx) simp_all
  have b: "(1000::int) \<noteq> 0 \<and> (1000::int) \<le> 1500 \<and> (1500::int) - 1000 < 2 ^ 53"
    by simp
  from C8_durationSeconds [of "state typedWorld" 1000 1500 "[]" "seconds Fifteen" None "\<lambda>r. None" initial "state typedWorld"] h b
  have "\<forall>cb \<in> set ?fx. r_duration (fst cb) = (1500 - 1000) div 1000
        \<and> (r_duration (fst cb) < seconds Fifteen \<longleftrightarrow> 1500 - 1000 < 1000 * seconds Fifteen)"
    by blast
  with m have "r_duration (fst (hd ?fx)) = (1500 - 1000) div 1000"
    "r_duration (fst (hd ?fx)) < seconds Fifteen \<longleftrightarrow> 1500 - 1000 < 1000 * seconds Fifteen"
    by blast+
  then have "r_duration (fst (hd ?fx)) = 0" "r_duration (fst (hd ?fx)) < seconds Fifteen"
    by (simp_all add: seconds_def)
  with h n show ?thesis
    by blast
qed

text \<open>
  Claim C8 as stated fails where it says that a game finished by typing the whole text has a
  duration strictly below the configured one. In \<open>lateCompletion\<close> the game is active with one
  second left on the countdown when the last character arrives; the completion effect, and
  not the timer effect, produces the result, and its duration is 15 seconds, the configured
  duration.
\<close>

theorem C8_counterexample:
  "isGameActive (state (run None (\<lambda>r. None) lateCompletion initial))
   \<and> \<not> isGameFinished (state (run None (\<lambda>r. None) lateCompletion initial))
   \<and> timer (state (run None (\<lambda>r. None) lateCompletion initial)) = 1
   \<and> pending (run None (\<lambda>r. None) lateCompletion initial)
       = completionFinishEffect 16050 (state (run None (\<lambda>r. None) lateCompletion initial)) []
   \<and> map (\<lambda>cb. r_duration (fst cb)) (pending (run None (\<lambda>r. None) lateCompletion initial))
       = [seconds (timerPreference (run None (\<lambda>r. None) lateCompletion initial))]
   \<and> \<not> r_duration (fst (hd (pending (run None (\<lambda>r. None) lateCompletion initial))))
         < seconds (timerPreference (run None (\<lambda>r. None) lateCompletion initial))"
  by code_simp

subsection \<open>Finishing more than once\<close>

text \<open>
  Claim C1 does not hold of the program. A finish effect runs again whenever a render brings a
  new history array or a new input while the game is not yet marked finished, and the
  callbacks that the effects schedule do not look at the mark: each of them calls
  \<^verbatim>\<open>saveGameResult\<close>. When the user types the whole text, the sampling effect of that render
  stores a new history; the render that follows schedules a second callback, and the two
  callbacks submit two results, which become two rows. When the countdown has run out and the
  last character arrives before the callback has run, three callbacks are pending and three
  results are submitted.
\<close>

theorem C1_submitted_more_than_once:
  "length (submitted (run (Some ''u1'') (\<lambda>r. Some ''g1'')
      (completion @ [Rerender 1500, FinishTimeout 1501, FinishTimeout 1501]) initial)) = 2
   \<and> length (rows (run (Some ''u1'') (\<lambda>r. Some ''g1'')
      (completion @ [Rerender 1500, FinishTimeout 1501, FinishTimeout 1501]) initial)) = 2
   \<and> length (pending (run (Some ''u1'') (\<lambda>r. Some ''g1'')
      (expiry @ [Input (utf16 ''ab'') 16061]) initial)) = 3
   \<and> length (submitted (run (Some ''u1'') (\<lambda>r. Some ''g1'')
      (expiry @ [Input (utf16 ''ab'') 16061, FinishTimeout 16062, FinishTimeout 16062,
                 FinishTimeout 16062]) initial)) = 3"
  by code_simp

subsection \<open>Sampling after the finish\<close>

text \<open>
  Claim C5 does not hold of the program for the history that the component keeps. Finishing
  leaves \<^verbatim>\<open>isGameActive\<close> true, so the interval of the sampling effect goes on: in a game that
  is finished, with no callback pending, two more ticks of the sampler make the history grow
  from one entry to three. The results already submitted are as they were.
\<close>

theorem C5_samples_after_finished:
  "isGameFinished (state finishedWorld)
   \<and> pending finishedWorld = []
   \<and> wpmHistory finishedWorld = [(0, 48)]
   \<and> wpmHistory (run (Some ''u1'') (\<lambda>r. Some ''g1'') [SampleTick 2600, SampleTick 3700] finishedWorld)
       = [(0, 48), (1, 15), (2, 9)]
   \<and> isGameFinished (state (run (Some ''u1'') (\<lambda>r. Some ''g1'') [SampleTick 2600, SampleTick 3700] finishedWorld))
   \<and> submitted (run (Some ''u1'') (\<lambda>r. Some ''g1'') [SampleTick 2600, SampleTick 3700] finishedWorld)
       = submitted finishedWorld"
  by code_simp

text \<open>
  What has been submitted stays: events only ever add to the list of submitted results.
\<close>

lemma submitted_render: "submitted (render now prev w) = submitted w"
  by (simp add: render_def Let_def samplerEffect_def runCalculateWPM_def split: option.split)

lemma submitted_handler:
  "\<exists>ys. submitted (handler u ins e w) = submitted w @ ys"
proof (cases e)
  case (FinishTimeout now)
  then show ?thesis
    by (cases "pending w") (simp_all add: finishCallback_submits)
next
  case (SampleTick now)
  then show ?thesis
    by (simp add: runCalculateWPM_def split: option.split)
qed (simp_all add: handleRestart_def handleRestartFailed_def handleTimerToggle_def Let_def)

lemma submitted_run:
  "\<exists>ys. submitted (run u ins es w) = submitted w @ ys"
proof (induction es arbitrary: w)
  case Nil
  show ?case by simp
next
  case (Cons e es)
  obtain ys where "submitted (step u ins e w) = submitted w @ ys"
    using submitted_handler [of u ins e w] by (auto simp: step_def submitted_render)
  moreover obtain zs where "submitted (run u ins es (step u ins e w)) = submitted (step u ins e w) @ zs"
    using Cons.IH by blast
  ultimately show ?case
    by simp
qed

end
